theory Spec2Isabelle
  imports Main "HOL-Library.Sublist" "HOL-Library.Monad_Syntax"
begin

section \<open>Python strings\<close>

text \<open>
  A Python \<open>str\<close> is a sequence of Unicode code points, so a character is modelled by
  its code point and a string by the list of its code points. Literals of the source
  are ASCII (apart from two symbols in console messages, given by their code points)
  and are written as HOL string literals, converted by \<open>str\<close>.
\<close>

type_synonym pychar = nat
type_synonym pystr = "pychar list"

definition ch :: "char \<Rightarrow> pychar" where
  "ch c = of_char c"

definition str :: "string \<Rightarrow> pystr" where
  "str s = map ch s"

text \<open>
  \<open>str.isspace\<close> for one character, which is also what \<open>\s\<close> matches in a \<open>str\<close>
  pattern of \<open>re\<close> and what \<open>str.strip()\<close> removes: the code points with the Unicode
  White\_Space property together with the separators U+001C..U+001F.
\<close>

definition isspace :: "pychar \<Rightarrow> bool" where
  "isspace c \<longleftrightarrow>
     (9 \<le> c \<and> c \<le> 13) \<or> (28 \<le> c \<and> c \<le> 32) \<or> c = 133 \<or> c = 160 \<or> c = 5760 \<or>
     (8192 \<le> c \<and> c \<le> 8202) \<or> c = 8232 \<or> c = 8233 \<or> c = 8239 \<or> c = 8287 \<or> c = 12288"

text \<open>\<open>s.strip()\<close>: leading and trailing whitespace removed.\<close>

definition strip :: "pystr \<Rightarrow> pystr" where
  "strip s = rev (dropWhile isspace (rev (dropWhile isspace s)))"

section \<open>Regular expressions: the fragment used by \<open>YOUTUBE_PATTERNS\<close>\<close>

text \<open>
  The four patterns use: the anchor \<open>^\<close>, literal characters (some escaped, as
  \<open>\.\<close> and \<open>\?\<close>), the negated classes \<open>[^&\s]\<close> and \<open>[^?\s]\<close>, the greedy
  quantifiers \<open>?\<close> and \<open>+\<close>, grouping and concatenation.
\<close>

datatype citem = CChar pychar | CSpace

datatype regex =
    Eps
  | Bol
  | Lit pychar
  | NegSet "citem list"
  | Seq regex regex
  | Opt regex
  | Plus regex

fun citem_has :: "citem \<Rightarrow> pychar \<Rightarrow> bool" where
  "citem_has (CChar d) c = (c = d)"
| "citem_has CSpace c = isspace c"

definition in_class :: "citem list \<Rightarrow> pychar \<Rightarrow> bool" where
  "in_class cs c = list_ex (\<lambda>i. citem_has i c) cs"

text \<open>
  A backtracking matcher in the style of \<open>re\<close>: a state is the number of characters
  consumed so far and the remaining input, and \<open>run r st\<close> lists the states in which a
  match of \<open>r\<close> started in \<open>st\<close> can end, the preferred (greedy) alternative first.
  An iteration of \<open>+\<close> that consumes nothing is not repeated.
\<close>

type_synonym mstate = "nat \<times> pystr"

function run :: "regex \<Rightarrow> mstate \<Rightarrow> mstate list" where
  "run Eps st = [st]"
| "run Bol (n, u) = (if n = 0 then [(n, u)] else [])"
| "run (Lit c) (n, u) =
     (case u of [] \<Rightarrow> [] | x # xs \<Rightarrow> if x = c then [(Suc n, xs)] else [])"
| "run (NegSet cs) (n, u) =
     (case u of [] \<Rightarrow> [] | x # xs \<Rightarrow> if in_class cs x then [] else [(Suc n, xs)])"
| "run (Seq a b) st = concat (map (run b) (run a st))"
| "run (Opt a) st = run a st @ [st]"
| "run (Plus a) st =
     concat (map (\<lambda>st'. (if length (snd st') < length (snd st) then run (Plus a) st' else [])
                          @ [st'])
                 (run a st))"
  by pat_completeness auto
termination
  by (relation "measures [\<lambda>(r, st). size r, \<lambda>(r, st). length (snd st)]") auto

text \<open>\<open>re.match(p, s)\<close> finds a match of \<open>p\<close> that starts at position 0 of \<open>s\<close> and may
  end anywhere; the model returns whether the result is a match object (true) or
  \<open>None\<close> (false).\<close>

definition re_match :: "regex \<Rightarrow> pystr \<Rightarrow> bool" where
  "re_match p s = (run p (0, s) \<noteq> [])"

definition lit :: "string \<Rightarrow> regex" where
  "lit s = foldr (\<lambda>c r. Seq (Lit (ch c)) r) s Eps"

definition seq :: "regex list \<Rightarrow> regex" where
  "seq rs = foldr Seq rs Eps"

section \<open>URL validation\<close>

definition YOUTUBE_PATTERNS :: "regex list" where
  "YOUTUBE_PATTERNS =
    [ seq [Bol, lit ''http'', Opt (lit ''s''), lit ''://'', Opt (lit ''www.''),
           lit ''youtube.com/watch?v='', Plus (NegSet [CChar (ch CHR ''&''), CSpace])],
      seq [Bol, lit ''http'', Opt (lit ''s''), lit ''://'', Opt (lit ''www.''),
           lit ''youtube.com/playlist?list='', Plus (NegSet [CChar (ch CHR ''&''), CSpace])],
      seq [Bol, lit ''http'', Opt (lit ''s''), lit ''://'', Opt (lit ''m.''),
           lit ''youtube.com/watch?v='', Plus (NegSet [CChar (ch CHR ''&''), CSpace])],
      seq [Bol, lit ''http'', Opt (lit ''s''), lit ''://'', Opt (lit ''www.''),
           lit ''youtu.be/'', Plus (NegSet [CChar (ch CHR ''?''), CSpace])] ]"

definition is_valid_youtube_url :: "pystr \<Rightarrow> bool" where
  "is_valid_youtube_url url = list_ex (\<lambda>p. re_match p url) YOUTUBE_PATTERNS"

section \<open>Tunable constants\<close>

text \<open>
  Python values that occur in the two dictionaries of the program, and a dictionary
  literal as the list of its items in the order written. \<open>d[k]\<close> is \<open>map_of d k\<close>,
  where \<open>None\<close> stands for \<open>KeyError\<close>.
\<close>

record path =
  anchor :: pystr
  parts :: "pystr list"

record FileLogger =
  logfile :: path

datatype pyval = PStr pystr | PBool bool | PInt int | PNone | PObj FileLogger

type_synonym dict = "(string \<times> pyval) list"

fun truthy :: "pyval \<Rightarrow> bool" where
  "truthy (PStr s) = (s \<noteq> [])"
| "truthy (PBool b) = b"
| "truthy (PInt i) = (i \<noteq> 0)"
| "truthy PNone = False"
| "truthy (PObj l) = True"

fun setitem :: "dict \<Rightarrow> string \<Rightarrow> pyval \<Rightarrow> dict" where
  "setitem [] k v = [(k, v)]"
| "setitem ((k', v') # d) k v = (if k' = k then (k, v) # d else (k', v') # setitem d k v)"

definition SETTINGS :: dict where
  "SETTINGS =
    [ (''format'', PStr (str ''bv*+ba/best'')),
      (''merge_output_format'', PStr (str ''mp4'')),
      (''force_overwrites'', PBool True),
      (''no_continue'', PBool True),
      (''ignoreerrors'', PBool True),
      (''retries'', PInt 10),
      (''fragment_retries'', PInt 10),
      (''writethumbnail'', PBool True),
      (''writeinfojson'', PBool True),
      (''embedthumbnail'', PBool True),
      (''restrictfilenames'', PBool True) ]"

section \<open>Paths, clock and decimal formatting\<close>

text \<open>
  A \<open>pathlib\<close> path is its anchor (root or drive) and its components. \<open>p / seg\<close>
  appends the component \<open>seg\<close>; every segment the program joins is a single relative
  component. \<open>str(p)\<close> writes the components after the anchor, separated by the
  separator of the platform.
\<close>

definition joinpath :: "path \<Rightarrow> pystr \<Rightarrow> path" where
  "joinpath p seg = p\<lparr>parts := parts p @ [seg]\<rparr>"

definition parent :: "path \<Rightarrow> path" where
  "parent p = p\<lparr>parts := butlast (parts p)\<rparr>"

definition name :: "path \<Rightarrow> pystr" where
  "name p = (if parts p = [] then [] else last (parts p))"

fun join :: "pystr \<Rightarrow> pystr list \<Rightarrow> pystr" where
  "join s [] = []"
| "join s [x] = x"
| "join s (x # y # ys) = x @ s @ join s (y # ys)"

definition path_str :: "pychar \<Rightarrow> path \<Rightarrow> pystr" where
  "path_str sep p = anchor p @ join [sep] (parts p)"

text \<open>The path itself and all its parents, the outermost first.\<close>

definition ancestors :: "path \<Rightarrow> path list" where
  "ancestors p = map (\<lambda>k. p\<lparr>parts := take k (parts p)\<rparr>) [0..<Suc (length (parts p))]"

text \<open>
  A naive \<open>datetime\<close> as \<open>datetime.datetime.now()\<close> returns it. The class keeps
  \<open>1 \<le> year \<le> 9999\<close>, \<open>1 \<le> month \<le> 12\<close>, \<open>1 \<le> day \<le> 31\<close>, \<open>hour < 24\<close>,
  \<open>minute < 60\<close>, \<open>second < 60\<close> and \<open>microsecond < 1000000\<close>.
\<close>

record datetime =
  year :: nat
  month :: nat
  day :: nat
  hour :: nat
  minute :: nat
  second :: nat
  microsecond :: nat

definition valid_datetime :: "datetime \<Rightarrow> bool" where
  "valid_datetime d \<longleftrightarrow>
     1 \<le> year d \<and> year d \<le> 9999 \<and> 1 \<le> month d \<and> month d \<le> 12 \<and>
     1 \<le> day d \<and> day d \<le> 31 \<and> hour d < 24 \<and> minute d < 60 \<and> second d < 60 \<and>
     microsecond d < 1000000"

definition digit :: "nat \<Rightarrow> pychar" where
  "digit d = 48 + d mod 10"

definition pad2 :: "nat \<Rightarrow> pystr" where
  "pad2 n = [digit (n div 10), digit n]"

definition pad4 :: "nat \<Rightarrow> pystr" where
  "pad4 n = [digit (n div 1000), digit (n div 100), digit (n div 10), digit n]"

definition pad6 :: "nat \<Rightarrow> pystr" where
  "pad6 n = [digit (n div 100000), digit (n div 10000), digit (n div 1000),
             digit (n div 100), digit (n div 10), digit n]"

text \<open>
  \<open>strftime\<close> for the directives of the format the program uses (zero-padded decimal
  fields, the year on four digits); any other character of the format is copied.
\<close>

definition directive :: "datetime \<Rightarrow> char \<Rightarrow> pystr" where
  "directive d c =
     (if c = CHR ''Y'' then pad4 (year d)
      else if c = CHR ''m'' then pad2 (month d)
      else if c = CHR ''d'' then pad2 (day d)
      else if c = CHR ''H'' then pad2 (hour d)
      else if c = CHR ''M'' then pad2 (minute d)
      else if c = CHR ''S'' then pad2 (second d)
      else if c = CHR ''%'' then [ch CHR ''%'']
      else [ch CHR ''%'', ch c])"

fun strftime :: "datetime \<Rightarrow> string \<Rightarrow> pystr" where
  "strftime d [] = []"
| "strftime d [c] = [ch c]"
| "strftime d (c # e # fs) =
     (if c = CHR ''%'' then directive d e @ strftime d fs else ch c # strftime d (e # fs))"

text \<open>\<open>str(d)\<close> for a naive \<open>datetime\<close>: ISO format with a space between date and time,
  the microseconds written only when they are not zero.\<close>

definition datetime_str :: "datetime \<Rightarrow> pystr" where
  "datetime_str d =
     pad4 (year d) @ str ''-'' @ pad2 (month d) @ str ''-'' @ pad2 (day d) @ str '' '' @
     pad2 (hour d) @ str '':'' @ pad2 (minute d) @ str '':'' @ pad2 (second d) @
     (if microsecond d = 0 then [] else str ''.'' @ pad6 (microsecond d))"

text \<open>\<open>str(i)\<close> for an integer.\<close>

function nat_str :: "nat \<Rightarrow> pystr" where
  "nat_str n = (if n < 10 then [digit n] else nat_str (n div 10) @ [digit n])"
  by pat_completeness auto
termination
  by (relation "measure id") auto

definition int_str :: "int \<Rightarrow> pystr" where
  "int_str i = (if i < 0 then ch CHR ''-'' # nat_str (nat (- i)) else nat_str (nat i))"

section \<open>The world of one run\<close>

text \<open>
  What the program reads is the environment: the command line, the directory of the
  script (\<open>Path(__file__).resolve().parent\<close>), the path separator of the platform,
  the successive readings of the clock, the characters the encoding of standard
  output can encode, and the extraction engine (\<open>yt_dlp\<close>).

  What the program changes is the world: standard input and output, the directories
  and files on disk, the open file handles, the number of clock readings so far, and
  the trace of the operations attempted on the file system and on the engine.

  The program catches no exception, so an operation that raises ends the run: the
  exception is a value, and the operations of the library that can raise in a world
  of this model return it.
\<close>

datatype exn =
    EOFError
  | KeyError
  | UnicodeEncodeError
  | FileExistsError
  | NotADirectoryError
  | FileNotFoundError
  | IsADirectoryError
  | EngineError pystr

datatype logcall = Debug pystr | Warning pystr | Error pystr

text \<open>
  The engine is a black box: given the options and the URLs it calls the logger it was
  handed some number of times and then returns an integer or raises. After each call
  of the logger it goes on as it chooses, knowing whether the call raised.
\<close>

datatype engine_run =
    Finish "exn + int"
  | LogCall logcall "exn option \<Rightarrow> engine_run"

datatype event =
    Mkdir path
  | Exists path
  | OpenAppend path
  | WriteText path pystr
  | CloseFile path
  | Download dict "pystr list"

record env =
  argv :: "pystr list"
  script_dir :: path
  os_sep :: pychar
  time_at :: "nat \<Rightarrow> datetime"
  stdout_encodes :: "pychar \<Rightarrow> bool"
  engine :: "dict \<Rightarrow> pystr list \<Rightarrow> engine_run"

record world =
  stdin :: "pystr list"
  stdout :: pystr
  dirs :: "path set"
  files :: "path \<rightharpoonup> pystr"
  handles :: "path list"
  nreads :: nat
  trace :: "event list"

datatype outcome = Returned | SysExit int | Uncaught exn

text \<open>The exit status of the process: 0 when \<open>main\<close> returns, the argument of
  \<open>sys.exit\<close>, and 1 after an uncaught exception.\<close>

fun exit_code :: "outcome \<Rightarrow> int" where
  "exit_code Returned = 0"
| "exit_code (SysExit n) = n"
| "exit_code (Uncaught e) = 1"

text \<open>
  Standard output encodes every ASCII character, and beyond ASCII what its encoding
  has: everything but the surrogates for UTF-8, little for a legacy code page. A
  text with a character it cannot encode makes \<open>print\<close> raise, and nothing of the
  text is written.
\<close>

definition can_encode :: "env \<Rightarrow> pychar \<Rightarrow> bool" where
  "can_encode env c \<longleftrightarrow> c < 128 \<or> stdout_encodes env c"

definition printable :: "env \<Rightarrow> pystr \<Rightarrow> bool" where
  "printable env s = list_all (can_encode env) s"

definition print :: "env \<Rightarrow> pystr \<Rightarrow> world \<Rightarrow> exn + world" where
  "print env s w =
     (if printable env s then Inr (w\<lparr>stdout := stdout w @ s @ str ''\<newline>''\<rparr>)
      else Inl UnicodeEncodeError)"

text \<open>\<open>input(prompt)\<close>: the prompt is written without a line end, and the next line of
  standard input is returned without its line end; at end of input it raises.\<close>

definition input :: "env \<Rightarrow> pystr \<Rightarrow> world \<Rightarrow> (exn + pystr) \<times> world" where
  "input env prompt w =
     (if \<not> printable env prompt then (Inl UnicodeEncodeError, w)
      else case stdin w of
             [] \<Rightarrow> (Inl EOFError, w\<lparr>stdout := stdout w @ prompt\<rparr>)
           | l # ls \<Rightarrow> (Inr l, w\<lparr>stdin := ls, stdout := stdout w @ prompt\<rparr>))"

definition datetime_now :: "env \<Rightarrow> world \<Rightarrow> datetime \<times> world" where
  "datetime_now env w = (time_at env (nreads w), w\<lparr>nreads := Suc (nreads w)\<rparr>)"

text \<open>
  \<open>p.mkdir(parents=True, exist_ok=True)\<close>: the directory and its missing parents are
  made, and an existing directory is accepted; a regular file at the path or at one of
  its parents makes it raise, and then nothing is made.
\<close>

definition mkdir :: "path \<Rightarrow> world \<Rightarrow> exn option \<times> world" where
  "mkdir p w =
     (let w' = w\<lparr>trace := trace w @ [Mkdir p]\<rparr>
      in if files w p \<noteq> None then (Some FileExistsError, w')
         else if list_ex (\<lambda>a. files w a \<noteq> None) (ancestors p) then (Some NotADirectoryError, w')
         else (None, w'\<lparr>dirs := dirs w \<union> set (ancestors p)\<rparr>))"

text \<open>\<open>p.exists()\<close>\<close>

definition path_exists :: "path \<Rightarrow> world \<Rightarrow> bool \<times> world" where
  "path_exists p w = (p \<in> dirs w \<or> files w p \<noteq> None, w\<lparr>trace := trace w @ [Exists p]\<rparr>)"

definition content :: "world \<Rightarrow> path \<Rightarrow> pystr" where
  "content w p = (case files w p of None \<Rightarrow> [] | Some c \<Rightarrow> c)"

text \<open>
  \<open>open(p, "a", encoding="utf-8")\<close> makes the file when it is missing; it raises when
  the path is a directory or when there is no directory to hold the file.
  \<open>f.write(text)\<close> encodes the text as UTF-8, which has every character but the
  surrogates. The \<open>with\<close> block closes the file, also when its body raises.
\<close>

definition open_append :: "path \<Rightarrow> world \<Rightarrow> exn option \<times> world" where
  "open_append p w =
     (let w' = w\<lparr>trace := trace w @ [OpenAppend p]\<rparr>
      in if p \<in> dirs w then (Some IsADirectoryError, w')
         else if parent p \<notin> dirs w then (Some FileNotFoundError, w')
         else (None, w'\<lparr>files := (files w)(p \<mapsto> content w p),
                          handles := handles w @ [p]\<rparr>))"

definition utf8_encodes :: "pychar \<Rightarrow> bool" where
  "utf8_encodes c \<longleftrightarrow> \<not> (55296 \<le> c \<and> c \<le> 57343)"

definition write_text :: "path \<Rightarrow> pystr \<Rightarrow> world \<Rightarrow> exn option \<times> world" where
  "write_text p text w =
     (let w' = w\<lparr>trace := trace w @ [WriteText p text]\<rparr>
      in if list_all utf8_encodes text
         then (None, w'\<lparr>files := (files w)(p \<mapsto> content w p @ text)\<rparr>)
         else (Some UnicodeEncodeError, w'))"

definition close_file :: "path \<Rightarrow> world \<Rightarrow> world" where
  "close_file p w = w\<lparr>handles := butlast (handles w), trace := trace w @ [CloseFile p]\<rparr>"

section \<open>Output folder and logging\<close>

definition get_download_folder :: "env \<Rightarrow> world \<Rightarrow> (exn + path) \<times> world" where
  "get_download_folder env w =
     (let outdir = joinpath (script_dir env) (str ''Downloads'')
      in case mkdir outdir w of
           (Some e, w') \<Rightarrow> (Inl e, w')
         | (None, w') \<Rightarrow> (Inr outdir, w'))"

definition make_log_file :: "env \<Rightarrow> path \<Rightarrow> world \<Rightarrow> path \<times> world" where
  "make_log_file env outdir w =
     (let (t, w') = datetime_now env w
      in (joinpath outdir (str ''download_'' @ strftime t ''%Y%m%d_%H%M%S'' @ str ''.log''), w'))"

definition FileLogger_write ::
    "env \<Rightarrow> FileLogger \<Rightarrow> string \<Rightarrow> pystr \<Rightarrow> world \<Rightarrow> exn option \<times> world" where
  "FileLogger_write env self level msg w =
     (let (t, w1) = datetime_now env w;
          line = str ''['' @ datetime_str t @ str ''] ['' @ str level @ str ''] '' @ msg
      in case print env line w1 of
           Inl e \<Rightarrow> (Some e, w1)
         | Inr w2 \<Rightarrow>
            (case open_append (logfile self) w2 of
               (Some e, w3) \<Rightarrow> (Some e, w3)
             | (None, w3) \<Rightarrow>
                (let (r, w4) = write_text (logfile self) (line @ str ''\<newline>'') w3
                 in (r, close_file (logfile self) w4))))"

definition FileLogger_debug ::
    "env \<Rightarrow> FileLogger \<Rightarrow> pystr \<Rightarrow> world \<Rightarrow> exn option \<times> world" where
  "FileLogger_debug env self msg = FileLogger_write env self ''DEBUG'' msg"

definition FileLogger_warning ::
    "env \<Rightarrow> FileLogger \<Rightarrow> pystr \<Rightarrow> world \<Rightarrow> exn option \<times> world" where
  "FileLogger_warning env self msg = FileLogger_write env self ''WARN'' msg"

definition FileLogger_error ::
    "env \<Rightarrow> FileLogger \<Rightarrow> pystr \<Rightarrow> world \<Rightarrow> exn option \<times> world" where
  "FileLogger_error env self msg = FileLogger_write env self ''ERROR'' msg"

section \<open>The extraction engine\<close>

fun log_call :: "env \<Rightarrow> FileLogger \<Rightarrow> logcall \<Rightarrow> world \<Rightarrow> exn option \<times> world" where
  "log_call env lg (Debug msg) w = FileLogger_debug env lg msg w"
| "log_call env lg (Warning msg) w = FileLogger_warning env lg msg w"
| "log_call env lg (Error msg) w = FileLogger_error env lg msg w"

text \<open>The engine at work: each line it logs goes through the logger, and what the
  logger did is handed back to it.\<close>

primrec drive :: "engine_run \<Rightarrow> env \<Rightarrow> FileLogger \<Rightarrow> world \<Rightarrow> (exn + int) \<times> world" where
  "drive (Finish r) env lg w = (r, w)"
| "drive (LogCall c k) env lg w =
     (case log_call env lg c w of (e, w') \<Rightarrow> drive (k e) env lg w')"

text \<open>Without a logger object the engine writes its lines itself, which this model
  does not follow.\<close>

primrec unlogged :: "engine_run \<Rightarrow> exn + int" where
  "unlogged (Finish r) = r"
| "unlogged (LogCall c k) = unlogged (k None)"

text \<open>\<open>with yt_dlp.YoutubeDL(opts) as ydl: result = ydl.download(urls)\<close>\<close>

definition download :: "env \<Rightarrow> dict \<Rightarrow> pystr list \<Rightarrow> world \<Rightarrow> (exn + int) \<times> world" where
  "download env opts urls w =
     (let w1 = w\<lparr>trace := trace w @ [Download opts urls]\<rparr>
      in case map_of opts ''logger'' of
           Some (PObj lg) \<Rightarrow> drive (engine env opts urls) env lg w1
         | _ \<Rightarrow> (unlogged (engine env opts urls), w1))"

section \<open>Main\<close>

definition warning_sign :: pystr where
  "warning_sign = [9888, 65039]"

definition check_mark :: pystr where
  "check_mark = [9989]"

text \<open>Line 59: the URL is the first command-line argument when there is one, and
  otherwise the stripped answer to the prompt.\<close>

definition read_url :: "env \<Rightarrow> world \<Rightarrow> (exn + pystr) \<times> world" where
  "read_url env w =
     (if length (argv env) > 1 then (Inr (argv env ! 1), w)
      else (case input env (str ''Paste a YouTube URL: '') w of
              (Inl e, w') \<Rightarrow> (Inl e, w')
            | (Inr l, w') \<Rightarrow> (Inr (strip l), w')))"

definition ydl_opts :: "env \<Rightarrow> path \<Rightarrow> path \<Rightarrow> dict option" where
  "ydl_opts env outdir ffmpeg_path = do {
     fmt \<leftarrow> map_of SETTINGS ''format'';
     merge \<leftarrow> map_of SETTINGS ''merge_output_format'';
     thumb \<leftarrow> map_of SETTINGS ''writethumbnail'';
     info \<leftarrow> map_of SETTINGS ''writeinfojson'';
     embed \<leftarrow> map_of SETTINGS ''embedthumbnail'';
     restrict \<leftarrow> map_of SETTINGS ''restrictfilenames'';
     retr \<leftarrow> map_of SETTINGS ''retries'';
     frag \<leftarrow> map_of SETTINGS ''fragment_retries'';
     ignore \<leftarrow> map_of SETTINGS ''ignoreerrors'';
     force \<leftarrow> map_of SETTINGS ''force_overwrites'';
     nocont \<leftarrow> map_of SETTINGS ''no_continue'';
     Some
      [ (''format'', fmt),
        (''merge_output_format'', merge),
        (''outtmpl'', PStr (path_str (os_sep env)
            (joinpath (joinpath outdir (str ''%(title)s'')) (str ''%(title)s.%(ext)s'')))),
        (''writethumbnail'', thumb),
        (''writeinfojson'', info),
        (''embedthumbnail'', embed),
        (''restrictfilenames'', restrict),
        (''retries'', retr),
        (''fragment_retries'', frag),
        (''ignoreerrors'', ignore),
        (''nooverwrites'', PBool (\<not> truthy force)),
        (''continuedl'', PBool (\<not> truthy nocont)),
        (''ffmpeg_location'', PStr (path_str (os_sep env) ffmpeg_path)),
        (''logger'', PNone) ] }"

text \<open>A print that ends the run when it raises, and otherwise lets it go on to the
  given outcome.\<close>

definition print_and :: "env \<Rightarrow> pystr \<Rightarrow> world \<Rightarrow> outcome \<Rightarrow> outcome \<times> world" where
  "print_and env s w out =
     (case print env s w of Inl e \<Rightarrow> (Uncaught e, w) | Inr w' \<Rightarrow> (out, w'))"

definition main :: "env \<Rightarrow> world \<Rightarrow> outcome \<times> world" where
  "main env w0 =
    (case read_url env w0 of
       (Inl e, w1) \<Rightarrow> (Uncaught e, w1)
     | (Inr url, w1) \<Rightarrow>
        if \<not> is_valid_youtube_url url then
          print_and env (str ''Invalid or unsupported YouTube URL.'') w1 (SysExit 1)
        else
          (case get_download_folder env w1 of
             (Inl e, w2) \<Rightarrow> (Uncaught e, w2)
           | (Inr outdir, w2) \<Rightarrow>
              (let (logpath, w3) = make_log_file env outdir w2
               in case print env (str ''Output folder: '' @ path_str (os_sep env) outdir) w3 of
                    Inl e \<Rightarrow> (Uncaught e, w3)
                  | Inr w4 \<Rightarrow>
                     (case print env (str ''Log file: '' @ path_str (os_sep env) logpath) w4 of
                        Inl e \<Rightarrow> (Uncaught e, w4)
                      | Inr w5 \<Rightarrow>
                         (let ffmpeg_path = joinpath (script_dir env) (str ''ffmpeg.exe'');
                              (found, w6) = path_exists ffmpeg_path w5
                          in if \<not> found then
                               print_and env
                                 (warning_sign @ str '' ffmpeg.exe not found in '' @
                                  path_str (os_sep env) (script_dir env) @
                                  str ''. Please place ffmpeg.exe next to this script.'')
                                 w6 (SysExit 1)
                             else
                               (case ydl_opts env outdir ffmpeg_path of
                                  None \<Rightarrow> (Uncaught KeyError, w6)
                                | Some opts \<Rightarrow>
                                   (let opts' = setitem opts ''logger''
                                                  (PObj \<lparr>logfile = logpath\<rparr>);
                                        (res, w7) = download env opts' [url] w6
                                    in case res of
                                         Inl e \<Rightarrow> (Uncaught e, w7)
                                       | Inr result \<Rightarrow>
                                          if result = 0 then
                                            print_and env
                                              (check_mark @ str '' Download complete.'')
                                              w7 Returned
                                          else
                                            print_and env
                                              (warning_sign @
                                               str '' Download finished with exit code '' @
                                               int_str result @
                                               str ''. See log for details.'')
                                              w7 Returned)))))))"

section \<open>The accepted URL shapes, as the specification words them\<close>

text \<open>
  A shape is a set of strings: a scheme \<open>http\<close> or \<open>https\<close>, \<open>://\<close>, an optional
  subdomain prefix, the host and path segment of the shape, and an identifier, which is
  a non-empty run of characters that are neither whitespace nor the one delimiter of
  the shape.
\<close>

definition schemes :: "pystr set" where
  "schemes = {str ''http'', str ''https''}"

definition identifiers :: "char \<Rightarrow> pystr set" where
  "identifiers delim = {v. v \<noteq> [] \<and> (\<forall>c \<in> set v. c \<noteq> ch delim \<and> \<not> isspace c)}"

definition url_shape :: "string set \<Rightarrow> string \<Rightarrow> char \<Rightarrow> pystr set" where
  "url_shape subs segment delim =
     {sc @ str ''://'' @ str sd @ str segment @ v | sc sd v.
        sc \<in> schemes \<and> sd \<in> subs \<and> v \<in> identifiers delim}"

definition watch_url :: "pystr set" where
  "watch_url = url_shape {[], ''www.''} ''youtube.com/watch?v='' CHR ''&''"

definition playlist_url :: "pystr set" where
  "playlist_url = url_shape {[], ''www.''} ''youtube.com/playlist?list='' CHR ''&''"

definition mobile_watch_url :: "pystr set" where
  "mobile_watch_url = url_shape {[], ''m.''} ''youtube.com/watch?v='' CHR ''&''"

definition short_link_url :: "pystr set" where
  "short_link_url = url_shape {[], ''www.''} ''youtu.be/'' CHR ''?''"

definition accepted_shapes :: "pystr set" where
  "accepted_shapes = watch_url \<union> playlist_url \<union> mobile_watch_url \<union> short_link_url"

definition has_accepted_prefix :: "pystr \<Rightarrow> bool" where
  "has_accepted_prefix url \<longleftrightarrow> (\<exists>p \<in> accepted_shapes. prefix p url)"

text \<open>The reading in which every one of the shapes tolerates both subdomain prefixes.\<close>

definition tolerant_shapes :: "pystr set" where
  "tolerant_shapes =
     url_shape {[], ''www.'', ''m.''} ''youtube.com/watch?v='' CHR ''&'' \<union>
     url_shape {[], ''www.'', ''m.''} ''youtube.com/playlist?list='' CHR ''&'' \<union>
     url_shape {[], ''www.'', ''m.''} ''youtu.be/'' CHR ''?''"

text \<open>The host and path segments, one of which every accepted string contains.\<close>

definition required_segments :: "pystr list" where
  "required_segments =
     [str ''youtube.com/watch?v='', str ''youtube.com/playlist?list='', str ''youtu.be/'']"

definition has_scheme :: "pystr \<Rightarrow> bool" where
  "has_scheme url \<longleftrightarrow> prefix (str ''http://'') url \<or> prefix (str ''https://'') url"

definition has_segment :: "pystr \<Rightarrow> bool" where
  "has_segment url \<longleftrightarrow> list_ex (\<lambda>seg. sublist seg url) required_segments"

section \<open>Observations on a run\<close>

text \<open>Two clock readings in the same second: equal up to the microseconds.\<close>

definition same_second :: "datetime \<Rightarrow> datetime \<Rightarrow> bool" where
  "same_second a b \<longleftrightarrow>
     year a = year b \<and> month a = month b \<and> day a = day b \<and>
     hour a = hour b \<and> minute a = minute b \<and> second a = second b"

text \<open>The stamp \<open>YYYYMMDD_HHMMSS\<close> of a clock reading.\<close>

definition stamp :: "datetime \<Rightarrow> pystr" where
  "stamp t = pad4 (year t) @ pad2 (month t) @ pad2 (day t) @ str ''_'' @
     pad2 (hour t) @ pad2 (minute t) @ pad2 (second t)"

text \<open>The calls of the extraction engine in a trace, with their options and URLs.\<close>

fun engine_calls :: "event list \<Rightarrow> (dict \<times> pystr list) list" where
  "engine_calls [] = []"
| "engine_calls (Download opts urls # es) = (opts, urls) # engine_calls es"
| "engine_calls (e # es) = engine_calls es"

text \<open>A text of ASCII characters only.\<close>

definition ascii :: "pystr \<Rightarrow> bool" where
  "ascii s = list_all (\<lambda>c. c < 128) s"



text \<open>
  What one logged entry does to the world when it goes through: the line, made of the
  clock reading, the severity tag and the message, goes to the console and, within
  one open and close, to the end of the log file.
\<close>

definition log_line :: "datetime \<Rightarrow> string \<Rightarrow> pystr \<Rightarrow> pystr" where
  "log_line t tag msg = str ''['' @ datetime_str t @ str ''] ['' @ str tag @ str ''] '' @ msg"




text \<open>The Download Configuration with the values the specification lists, for a given
  output template, location of the external binary and log file.\<close>

definition download_configuration :: "pystr \<Rightarrow> pystr \<Rightarrow> path \<Rightarrow> dict" where
  "download_configuration template binary logpath =
    [ (''format'', PStr (str ''bv*+ba/best'')),
      (''merge_output_format'', PStr (str ''mp4'')),
      (''outtmpl'', PStr template),
      (''writethumbnail'', PBool True),
      (''writeinfojson'', PBool True),
      (''embedthumbnail'', PBool True),
      (''restrictfilenames'', PBool True),
      (''retries'', PInt 10),
      (''fragment_retries'', PInt 10),
      (''ignoreerrors'', PBool True),
      (''nooverwrites'', PBool False),
      (''continuedl'', PBool False),
      (''ffmpeg_location'', PStr binary),
      (''logger'', PObj \<lparr>logfile = logpath\<rparr>) ]"

text \<open>The paths of a run: the output directory, the external binary, the output
  template and the log file, which carries the first clock reading of the run.\<close>

definition outdir_of :: "env \<Rightarrow> path" where
  "outdir_of env = joinpath (script_dir env) (str ''Downloads'')"

definition ffmpeg_of :: "env \<Rightarrow> path" where
  "ffmpeg_of env = joinpath (script_dir env) (str ''ffmpeg.exe'')"

definition template_of :: "env \<Rightarrow> pystr" where
  "template_of env =
     path_str (os_sep env) (outdir_of env) @ [os_sep env] @ str ''%(title)s'' @
     [os_sep env] @ str ''%(title)s.%(ext)s''"

definition logpath_of :: "env \<Rightarrow> world \<Rightarrow> path" where
  "logpath_of env w =
     joinpath (outdir_of env) (str ''download_'' @ stamp (time_at env (nreads w)) @ str ''.log'')"

definition configuration_of :: "env \<Rightarrow> world \<Rightarrow> dict" where
  "configuration_of env w =
     download_configuration (template_of env) (path_str (os_sep env) (ffmpeg_of env))
       (logpath_of env w)"

definition binary_present :: "env \<Rightarrow> world \<Rightarrow> bool" where
  "binary_present env w \<longleftrightarrow> ffmpeg_of env \<in> dirs w \<or> files w (ffmpeg_of env) \<noteq> None"

text \<open>
  The run gets as far as looking for the binary when the output directory can be made
  (no regular file is in its way) and standard output can encode the two paths it
  prints.
\<close>

definition folder_creatable :: "env \<Rightarrow> world \<Rightarrow> bool" where
  "folder_creatable env w = list_all (\<lambda>a. files w a = None) (ancestors (outdir_of env))"

definition paths_printable :: "env \<Rightarrow> world \<Rightarrow> bool" where
  "paths_printable env w \<longleftrightarrow>
     printable env (path_str (os_sep env) (outdir_of env)) \<and>
     printable env (path_str (os_sep env) (logpath_of env w))"

text \<open>
  The world once the binary has been looked for: the output directory made, the clock
  read once for the name of the log file, both paths printed.
\<close>

definition prepared :: "env \<Rightarrow> world \<Rightarrow> world" where
  "prepared env w =
     w\<lparr>stdout := stdout w @ str ''Output folder: '' @ path_str (os_sep env) (outdir_of env) @
                  str ''\<newline>'' @ str ''Log file: '' @
                  path_str (os_sep env) (logpath_of env w) @ str ''\<newline>'',
       dirs := dirs w \<union> set (ancestors (outdir_of env)),
       nreads := Suc (nreads w),
       trace := trace w @ [Mkdir (outdir_of env), Exists (ffmpeg_of env)]\<rparr>"

text \<open>The three closing messages of a run.\<close>

definition invalid_message :: pystr where
  "invalid_message = str ''Invalid or unsupported YouTube URL.''"

definition missing_message :: "env \<Rightarrow> pystr" where
  "missing_message env =
     warning_sign @ str '' ffmpeg.exe not found in '' @ path_str (os_sep env) (script_dir env) @
     str ''. Please place ffmpeg.exe next to this script.''"

definition final_message :: "int \<Rightarrow> pystr" where
  "final_message r =
     (if r = 0 then check_mark @ str '' Download complete.''
      else warning_sign @ str '' Download finished with exit code '' @ int_str r @
           str ''. See log for details.'')"

text \<open>
  A sample run, on which the statements below are evaluated: the URL comes from the
  command line, the script lies in \<open>/opt/ripper\<close> beside the binary, standard output
  is UTF-8, the clock advances by a second at each reading, and the engine logs two lines and reports the result code 1. In the
  second environment standard output has a legacy encoding of one byte a character;
  in the second world a regular file has the name of the output directory.
\<close>

definition sample_time :: "nat \<Rightarrow> datetime" where
  "sample_time k =
     \<lparr>year = 2024, month = 3, day = 9, hour = 7, minute = 5, second = k mod 60,
       microsecond = 12\<rparr>"

definition sample_env :: env where
  "sample_env =
     \<lparr>argv = [str ''YoutubeRipper5000.py'', str ''https://youtu.be/abc''],
       script_dir = \<lparr>anchor = str ''/'', parts = [str ''opt'', str ''ripper'']\<rparr>,
       os_sep = ch CHR ''/'',
       time_at = sample_time,
       stdout_encodes = utf8_encodes,
       engine = (\<lambda>opts urls.
          LogCall (Debug (str ''start'')) (\<lambda>e.
          LogCall (Error (str ''failed'')) (\<lambda>e. Finish (Inr 1))))\<rparr>"

definition sample_world :: world where
  "sample_world =
     \<lparr>stdin = [], stdout = [],
       dirs = {\<lparr>anchor = str ''/'', parts = []\<rparr>,
               \<lparr>anchor = str ''/'', parts = [str ''opt'']\<rparr>,
               \<lparr>anchor = str ''/'', parts = [str ''opt'', str ''ripper'']\<rparr>},
       files = [\<lparr>anchor = str ''/'', parts = [str ''opt'', str ''ripper'', str ''ffmpeg.exe'']\<rparr>
                  \<mapsto> []],
       handles = [], nreads = 0, trace = []\<rparr>"

definition legacy_env :: env where
  "legacy_env = sample_env\<lparr>stdout_encodes := (\<lambda>c. c < 256)\<rparr>"

definition blocked_world :: world where
  "blocked_world =
     sample_world\<lparr>files :=
       [\<lparr>anchor = str ''/'', parts = [str ''opt'', str ''ripper'', str ''Downloads'']\<rparr> \<mapsto> []]\<rparr>"

definition missing_world :: world where
  "missing_world = sample_world\<lparr>files := Map.empty\<rparr>"



section \<open>The matcher on the patterns of the program\<close>

lemma in_run_lit:
  "st' \<in> set (run (lit s) (n, u)) \<longleftrightarrow> (\<exists>t. u = str s @ t \<and> st' = (n + length s, t))"
proof (induction s arbitrary: n u)
  case Nil
  then show ?case by (auto simp: lit_def str_def)
next
  case (Cons c s)
  have step: "lit (c # s) = Seq (Lit (ch c)) (lit s)" by (simp add: lit_def)
  show ?case
    by (cases u) (auto simp: step Cons.IH str_def)
qed

lemma ex_run_bol: "(\<exists>st' \<in> set (run Bol (0, u)). P st') \<longleftrightarrow> P (0, u)"
  by simp

lemma ex_run_lit:
  "(\<exists>st' \<in> set (run (lit s) (n, u)). P st') \<longleftrightarrow> (\<exists>t. u = str s @ t \<and> P (n + length s, t))"
  by (auto simp: in_run_lit)

lemma ex_run_opt_lit:
  "(\<exists>st' \<in> set (run (Opt (lit s)) (n, u)). P st') \<longleftrightarrow>
     P (n, u) \<or> (\<exists>t. u = str s @ t \<and> P (n + length s, t))"
  by (auto simp: in_run_lit)

lemma run_seq_nonempty:
  "run (Seq a b) st \<noteq> [] \<longleftrightarrow> (\<exists>st' \<in> set (run a st). run b st' \<noteq> [])"
  by auto

lemma run_plus_nonempty: "run (Plus a) st \<noteq> [] \<longleftrightarrow> run a st \<noteq> []"
  by (cases "run a st") auto

lemma run_negset_nonempty:
  "run (NegSet cs) (n, u) \<noteq> [] \<longleftrightarrow> (\<exists>k t. u = k # t \<and> \<not> in_class cs k)"
  by (cases u) auto

lemma run_seq_eps: "run (Seq a Eps) st = run a st"
proof -
  have "run Eps = (\<lambda>st. [st])" by (rule ext) simp
  then show ?thesis by simp
qed

lemma seq_Nil: "seq [] = Eps" by (simp add: seq_def)
lemma seq_Cons: "seq (r # rs) = Seq r (seq rs)" by (simp add: seq_def)

lemma shape_match:
  "re_match (seq [Bol, lit a, Opt (lit b), lit c, Opt (lit d), lit e, Plus (NegSet cs)]) url \<longleftrightarrow>
   (\<exists>x \<in> {[], str b}. \<exists>y \<in> {[], str d}. \<exists>k t.
       url = str a @ x @ str c @ y @ str e @ k # t \<and> \<not> in_class cs k)"
proof -
  have "re_match (seq [Bol, lit a, Opt (lit b), lit c, Opt (lit d), lit e, Plus (NegSet cs)]) url
     \<longleftrightarrow> (\<exists>st1 \<in> set (run Bol (0, url)). \<exists>st2 \<in> set (run (lit a) st1).
            \<exists>st3 \<in> set (run (Opt (lit b)) st2). \<exists>st4 \<in> set (run (lit c) st3).
            \<exists>st5 \<in> set (run (Opt (lit d)) st4). \<exists>st6 \<in> set (run (lit e) st5).
              run (NegSet cs) st6 \<noteq> [])"
    by (simp only: re_match_def seq_Cons seq_Nil run_seq_nonempty run_seq_eps
      run_plus_nonempty)
  also have "\<dots> \<longleftrightarrow> (\<exists>x \<in> {[], str b}. \<exists>y \<in> {[], str d}. \<exists>k t.
       url = str a @ x @ str c @ y @ str e @ k # t \<and> \<not> in_class cs k)"
    unfolding ex_run_bol ex_run_lit ex_run_opt_lit run_negset_nonempty
    by auto
  finally show ?thesis .
qed

lemma in_class_delim: "in_class [CChar (ch d), CSpace] k \<longleftrightarrow> k = ch d \<or> isspace k"
  by (simp add: in_class_def)

lemma shape_match_url_shape:
  "re_match (seq [Bol, lit ''http'', Opt (lit ''s''), lit ''://'', Opt (lit sub), lit seg,
                  Plus (NegSet [CChar (ch d), CSpace])]) url \<longleftrightarrow>
   (\<exists>p \<in> url_shape {[], sub} seg d. prefix p url)"
  (is "?L \<longleftrightarrow> ?R")
proof
  assume ?L
  then obtain x y k t where x: "x \<in> {[], str ''s''}" and y: "y \<in> {[], str sub}"
    and url: "url = str ''http'' @ x @ str ''://'' @ y @ str seg @ k # t"
    and k: "\<not> in_class [CChar (ch d), CSpace] k"
    unfolding shape_match by blast
  from x have sc: "str ''http'' @ x \<in> schemes"
    by (auto simp: schemes_def str_def)
  from y obtain sd where sd: "sd \<in> {[], sub}" "y = str sd"
    by (auto simp: str_def)
  from k have v: "[k] \<in> identifiers d"
    by (simp add: identifiers_def in_class_delim)
  have "(str ''http'' @ x) @ str ''://'' @ str sd @ str seg @ [k] \<in> url_shape {[], sub} seg d"
    unfolding url_shape_def using sc sd(1) v by blast
  moreover have "prefix ((str ''http'' @ x) @ str ''://'' @ str sd @ str seg @ [k]) url"
    unfolding url sd(2) by (simp add: prefix_def)
  ultimately show ?R by blast
next
  assume ?R
  then obtain sc sd v t where sc: "sc \<in> schemes" and sd: "sd \<in> {[], sub}"
    and v: "v \<in> identifiers d" and url: "url = (sc @ str ''://'' @ str sd @ str seg @ v) @ t"
    unfolding url_shape_def prefix_def by blast
  from v obtain k v' where kv: "v = k # v'" and k: "\<not> in_class [CChar (ch d), CSpace] k"
    by (cases v) (auto simp: identifiers_def in_class_delim)
  from sc obtain x where x: "x \<in> {[], str ''s''}" "sc = str ''http'' @ x"
    by (auto simp: schemes_def str_def)
  from sd have y: "str sd \<in> {[], str sub}" by (auto simp: str_def)
  have "url = str ''http'' @ x @ str ''://'' @ str sd @ str seg @ k # (v' @ t)"
    by (simp add: url x(2) kv)
  with x(1) y k show ?L unfolding shape_match by blast
qed

lemma valid_iff_prefix: "is_valid_youtube_url url \<longleftrightarrow> has_accepted_prefix url"
  unfolding is_valid_youtube_url_def YOUTUBE_PATTERNS_def list_ex_Cons_iff list_ex_Nil_iff shape_match_url_shape
    has_accepted_prefix_def accepted_shapes_def watch_url_def playlist_url_def
    mobile_watch_url_def short_link_url_def
  by blast

section \<open>Properties of the URL validator\<close>

text \<open>
  C1: for every input string, \<open>is_valid_youtube_url\<close> is true exactly when some prefix
  of the string, anchored at its start, is of one of the four accepted shapes (standard
  watch, playlist, mobile watch, short link) with scheme \<open>http\<close> or \<open>https\<close>; so a
  string with trailing characters after an accepted one is accepted too. The validator
  is a function of the string alone: it reads and changes nothing else.
\<close>

theorem is_valid_youtube_url_prefix_shapes:
  "(is_valid_youtube_url url \<longleftrightarrow> has_accepted_prefix url) \<and>
   (is_valid_youtube_url url \<longrightarrow> is_valid_youtube_url (url @ trailing))"
proof (intro conjI impI)
  show "is_valid_youtube_url url \<longleftrightarrow> has_accepted_prefix url"
    by (rule valid_iff_prefix)
next
  assume "is_valid_youtube_url url"
  then obtain p where "p \<in> accepted_shapes" "prefix p url"
    unfolding valid_iff_prefix has_accepted_prefix_def by blast
  then have "has_accepted_prefix (url @ trailing)"
    unfolding has_accepted_prefix_def by (blast intro: prefix_prefix)
  then show "is_valid_youtube_url (url @ trailing)"
    unfolding valid_iff_prefix .
qed

lemmas validator_defs =
  is_valid_youtube_url_def YOUTUBE_PATTERNS_def re_match_def seq_def lit_def str_def ch_def
  in_class_def isspace_def

theorem is_valid_youtube_url_prefix_shapes_witness:
  "is_valid_youtube_url (str ''https://youtu.be/abc'') \<and>
   has_accepted_prefix (str ''https://youtu.be/abc'') \<and>
   is_valid_youtube_url (str ''https://youtu.be/abc'' @ str '' trailing garbage'') \<and>
   \<not> is_valid_youtube_url (str ''ftp://youtu.be/abc'') \<and>
   \<not> has_accepted_prefix (str ''ftp://youtu.be/abc'')"
proof -
  have v: "is_valid_youtube_url (str ''https://youtu.be/abc'')"
    by (simp add: validator_defs)
  have n: "\<not> is_valid_youtube_url (str ''ftp://youtu.be/abc'')"
    by (simp add: validator_defs)
  from v n
    is_valid_youtube_url_prefix_shapes [of "str ''https://youtu.be/abc''" "str '' trailing garbage''"]
    is_valid_youtube_url_prefix_shapes [of "str ''ftp://youtu.be/abc''" "[]"]
  show ?thesis by blast
qed

text \<open>
  C2, as stated, lets every shape carry either subdomain prefix. The playlist shape
  with the prefix \<open>m.\<close> is rejected.
\<close>

theorem subdomain_tolerance_counterexample:
  "str ''https://m.youtube.com/playlist?list=PL123'' \<in> tolerant_shapes \<and>
   \<not> is_valid_youtube_url (str ''https://m.youtube.com/playlist?list=PL123'')"
proof
  have "str ''https'' \<in> schemes" by (simp add: schemes_def)
  moreover have "str ''PL123'' \<in> identifiers CHR ''&''"
    by (simp add: identifiers_def str_def ch_def isspace_def)
  ultimately have
    "str ''https'' @ str ''://'' @ str ''m.'' @ str ''youtube.com/playlist?list='' @ str ''PL123''
       \<in> url_shape {[], ''www.'', ''m.''} ''youtube.com/playlist?list='' CHR ''&''"
    unfolding url_shape_def by blast
  then show "str ''https://m.youtube.com/playlist?list=PL123'' \<in> tolerant_shapes"
    by (simp add: tolerant_shapes_def str_def)
next
  show "\<not> is_valid_youtube_url (str ''https://m.youtube.com/playlist?list=PL123'')"
    by (simp add: validator_defs)
qed

lemma valid_has_scheme: "is_valid_youtube_url url \<Longrightarrow> has_scheme url"
  unfolding valid_iff_prefix has_accepted_prefix_def accepted_shapes_def watch_url_def
    playlist_url_def mobile_watch_url_def short_link_url_def url_shape_def schemes_def
    has_scheme_def prefix_def
  by (auto simp: str_def)

lemma valid_has_segment: "is_valid_youtube_url url \<Longrightarrow> has_segment url"
  unfolding valid_iff_prefix has_accepted_prefix_def accepted_shapes_def watch_url_def
    playlist_url_def mobile_watch_url_def short_link_url_def url_shape_def
    has_segment_def required_segments_def prefix_def list_ex_Cons_iff list_ex_Nil_iff
    sublist_def
  by (elim bexE UnE CollectE exE conjE; simp; metis append.assoc)

text \<open>
  C2, amended: every string of one of the four accepted shapes is accepted, where the
  optional subdomain prefix is \<open>www.\<close> for the standard watch, playlist and short-link
  shapes and \<open>m.\<close> for the mobile watch shape; a string that does not start with
  \<open>http://\<close> or \<open>https://\<close> is rejected, and so is a string that contains none of
  the host and path segments of the shapes.
\<close>

theorem validator_accepts_listed_shapes:
  "(p \<in> accepted_shapes \<longrightarrow> is_valid_youtube_url p) \<and>
   (\<not> has_scheme url \<longrightarrow> \<not> is_valid_youtube_url url) \<and>
   (\<not> has_segment url \<longrightarrow> \<not> is_valid_youtube_url url)"
proof (intro conjI impI)
  assume "p \<in> accepted_shapes"
  then show "is_valid_youtube_url p"
    unfolding valid_iff_prefix has_accepted_prefix_def by blast
next
  assume "\<not> has_scheme url"
  then show "\<not> is_valid_youtube_url url" using valid_has_scheme by blast
next
  assume "\<not> has_segment url"
  then show "\<not> is_valid_youtube_url url" using valid_has_segment by blast
qed

theorem validator_accepts_listed_shapes_witness:
  "str ''https://m.youtube.com/watch?v=abc'' \<in> accepted_shapes \<and>
   is_valid_youtube_url (str ''https://m.youtube.com/watch?v=abc'') \<and>
   \<not> has_scheme (str ''youtu.be/abc'') \<and>
   \<not> is_valid_youtube_url (str ''youtu.be/abc'') \<and>
   \<not> has_segment (str ''https://a.b/c'') \<and>
   \<not> is_valid_youtube_url (str ''https://a.b/c'')"
proof -
  have "str ''https'' \<in> schemes" by (simp add: schemes_def)
  moreover have "str ''abc'' \<in> identifiers CHR ''&''"
    by (simp add: identifiers_def str_def ch_def isspace_def)
  ultimately have
    "str ''https'' @ str ''://'' @ str ''m.'' @ str ''youtube.com/watch?v='' @ str ''abc''
       \<in> url_shape {[], ''m.''} ''youtube.com/watch?v='' CHR ''&''"
    unfolding url_shape_def by blast
  then have a: "str ''https://m.youtube.com/watch?v=abc'' \<in> accepted_shapes"
    by (simp add: accepted_shapes_def mobile_watch_url_def str_def)
  have b: "\<not> has_scheme (str ''youtu.be/abc'')"
    by (simp add: has_scheme_def str_def ch_def)
  have c: "\<not> has_segment (str ''https://a.b/c'')"
    by (simp add: has_segment_def required_segments_def str_def ch_def sublist_Cons_right)
  from a b c
    validator_accepts_listed_shapes [of "str ''https://m.youtube.com/watch?v=abc''" "str ''youtu.be/abc''"]
    validator_accepts_listed_shapes [of "str ''https://m.youtube.com/watch?v=abc''" "str ''https://a.b/c''"]
  show ?thesis by blast
qed

section \<open>The log file of a run\<close>

lemma digit_eq: "digit a = digit b \<longleftrightarrow> a mod 10 = b mod 10"
  by (simp add: digit_def)

lemma div_mod_10_eq:
  fixes a b :: nat
  assumes "a div 10 = b div 10" "a mod 10 = b mod 10"
  shows "a = b"
proof -
  have "a = 10 * (a div 10) + a mod 10" by simp
  also have "\<dots> = 10 * (b div 10) + b mod 10" using assms by simp
  also have "\<dots> = b" by simp
  finally show ?thesis .
qed

lemma small_mod_10_eq:
  fixes a b :: nat
  assumes "a < 10" "b < 10" "a mod 10 = b mod 10"
  shows "a = b"
  using assms by simp

lemma pad2_digits:
  "pad2 n = pad2 m \<longleftrightarrow> (n div 10) mod 10 = (m div 10) mod 10 \<and> n mod 10 = m mod 10"
  unfolding pad2_def list.inject digit_eq by simp

lemma pad4_digits:
  "pad4 n = pad4 m \<longleftrightarrow>
     (n div 1000) mod 10 = (m div 1000) mod 10 \<and> (n div 100) mod 10 = (m div 100) mod 10 \<and>
     (n div 10) mod 10 = (m div 10) mod 10 \<and> n mod 10 = m mod 10"
  unfolding pad4_def list.inject digit_eq by simp

lemma pad2_inj:
  assumes "n < 100" "m < 100"
  shows "pad2 n = pad2 m \<longleftrightarrow> n = m"
proof
  assume "pad2 n = pad2 m"
  then have d1: "(n div 10) mod 10 = (m div 10) mod 10" and d0: "n mod 10 = m mod 10"
    unfolding pad2_digits by blast+
  from assms have "n div 10 < 10" "m div 10 < 10" by simp_all
  then have "n div 10 = m div 10" using d1 by (rule small_mod_10_eq)
  then show "n = m" using d0 by (rule div_mod_10_eq)
next
  assume "n = m"
  then show "pad2 n = pad2 m" by (rule arg_cong)
qed

lemma pad4_inj:
  assumes "n < 10000" "m < 10000"
  shows "pad4 n = pad4 m \<longleftrightarrow> n = m"
proof
  assume "pad4 n = pad4 m"
  then have d3: "(n div 1000) mod 10 = (m div 1000) mod 10"
    and d2: "(n div 100) mod 10 = (m div 100) mod 10"
    and d1: "(n div 10) mod 10 = (m div 10) mod 10"
    and d0: "n mod 10 = m mod 10"
    unfolding pad4_digits by blast+
  have e3: "n div 100 div 10 = n div 1000" "m div 100 div 10 = m div 1000"
    by (simp_all add: div_mult2_eq)
  have e2: "n div 10 div 10 = n div 100" "m div 10 div 10 = m div 100"
    by (simp_all add: div_mult2_eq)
  from assms have "n div 1000 < 10" "m div 1000 < 10" by simp_all
  then have "n div 1000 = m div 1000" using d3 by (rule small_mod_10_eq)
  then have "n div 100 div 10 = m div 100 div 10" unfolding e3 .
  then have "n div 100 = m div 100" using d2 by (rule div_mod_10_eq)
  then have "n div 10 div 10 = m div 10 div 10" unfolding e2 .
  then have "n div 10 = m div 10" using d1 by (rule div_mod_10_eq)
  then show "n = m" using d0 by (rule div_mod_10_eq)
next
  assume "n = m"
  then show "pad4 n = pad4 m" by (rule arg_cong)
qed

lemma strftime_stamp:
  "strftime t ''%Y%m%d_%H%M%S'' = stamp t"
  by (simp add: directive_def str_def stamp_def)

lemma make_log_file_path:
  "fst (make_log_file env outdir w) =
     joinpath outdir (str ''download_'' @ stamp (time_at env (nreads w)) @ str ''.log'')"
  by (simp add: make_log_file_def datetime_now_def strftime_stamp del: strftime.simps)

lemma parent_joinpath: "parent (joinpath p s) = p"
  by (simp add: parent_def joinpath_def)

lemma name_joinpath: "name (joinpath p s) = s"
  by (simp add: name_def joinpath_def)

lemma joinpath_inj: "joinpath p s = joinpath p s' \<longleftrightarrow> s = s'"
proof
  assume "joinpath p s = joinpath p s'"
  then have "name (joinpath p s) = name (joinpath p s')" by (rule arg_cong)
  then show "s = s'" unfolding name_joinpath .
qed simp

lemma digit_not_separator: "digit d \<noteq> 47" "digit d \<noteq> 92"
proof -
  have "d mod 10 < 10" by simp
  then show "digit d \<noteq> 47" "digit d \<noteq> 92" unfolding digit_def by linarith+
qed

lemma stamp_eq:
  assumes "valid_datetime a" "valid_datetime b"
  shows "stamp a = stamp b \<longleftrightarrow> same_second a b"
proof -
  have l4: "\<And>n. length (pad4 n) = 4" and l2: "\<And>n. length (pad2 n) = 2"
    by (simp_all add: pad4_def pad2_def)
  from assms have y: "year a < 10000" "year b < 10000" and mo: "month a < 100" "month b < 100"
    and d: "day a < 100" "day b < 100" and h: "hour a < 100" "hour b < 100"
    and mi: "minute a < 100" "minute b < 100" and s: "second a < 100" "second b < 100"
    by (simp_all add: valid_datetime_def)
  show ?thesis
    unfolding stamp_def same_second_def
    by (simp add: l4 l2 pad4_inj [OF y] pad2_inj [OF mo] pad2_inj [OF d] pad2_inj [OF h]
        pad2_inj [OF mi] pad2_inj [OF s])
qed

text \<open>
  C7: the path \<open>make_log_file\<close> returns lies directly inside the output directory and
  is named \<open>download_\<close>, the stamp \<open>YYYYMMDD_HHMMSS\<close> of the clock reading (fifteen
  characters, to the second), \<open>.log\<close>; the name holds no path separator; and two runs
  get the same path exactly when their clock readings fall in the same second.
\<close>

theorem make_log_file_timestamped:
  assumes "valid_datetime (time_at e1 (nreads w1))" and "valid_datetime (time_at e2 (nreads w2))"
  shows "parent (fst (make_log_file e1 outdir w1)) = outdir \<and>
         name (fst (make_log_file e1 outdir w1)) =
           str ''download_'' @ stamp (time_at e1 (nreads w1)) @ str ''.log'' \<and>
         length (stamp (time_at e1 (nreads w1))) = 15 \<and>
         (\<forall>c \<in> set (name (fst (make_log_file e1 outdir w1))). c \<noteq> ch CHR ''/'' \<and> c \<noteq> ch CHR 0x5C) \<and>
         (fst (make_log_file e1 outdir w1) = fst (make_log_file e2 outdir w2) \<longleftrightarrow>
            same_second (time_at e1 (nreads w1)) (time_at e2 (nreads w2)))"
proof (intro conjI)
  show "parent (fst (make_log_file e1 outdir w1)) = outdir"
    unfolding make_log_file_path parent_joinpath ..
  show "name (fst (make_log_file e1 outdir w1)) =
           str ''download_'' @ stamp (time_at e1 (nreads w1)) @ str ''.log''"
    unfolding make_log_file_path name_joinpath ..
  show "length (stamp (time_at e1 (nreads w1))) = 15"
    by (simp add: stamp_def pad4_def pad2_def str_def)
  show "\<forall>c \<in> set (name (fst (make_log_file e1 outdir w1))). c \<noteq> ch CHR ''/'' \<and> c \<noteq> ch CHR 0x5C"
    unfolding make_log_file_path name_joinpath stamp_def
    by (simp add: pad4_def pad2_def str_def ch_def digit_not_separator)
  have "fst (make_log_file e1 outdir w1) = fst (make_log_file e2 outdir w2) \<longleftrightarrow>
          stamp (time_at e1 (nreads w1)) = stamp (time_at e2 (nreads w2))"
    unfolding make_log_file_path joinpath_inj by simp
  then show "fst (make_log_file e1 outdir w1) = fst (make_log_file e2 outdir w2) \<longleftrightarrow>
            same_second (time_at e1 (nreads w1)) (time_at e2 (nreads w2))"
    unfolding stamp_eq [OF assms] .
qed

theorem make_log_file_timestamped_witness:
  "valid_datetime (time_at sample_env (nreads sample_world)) \<and>
   valid_datetime (time_at sample_env (nreads (sample_world\<lparr>nreads := 1\<rparr>))) \<and>
   parent (fst (make_log_file sample_env (outdir_of sample_env) sample_world)) =
     outdir_of sample_env \<and>
   name (fst (make_log_file sample_env (outdir_of sample_env) sample_world)) =
     str ''download_20240309_070500.log'' \<and>
   fst (make_log_file sample_env (outdir_of sample_env) sample_world) \<noteq>
   fst (make_log_file sample_env (outdir_of sample_env) (sample_world\<lparr>nreads := 1\<rparr>))"
proof -
  have v1: "valid_datetime (time_at sample_env (nreads sample_world))"
    by (simp add: valid_datetime_def sample_env_def sample_world_def sample_time_def)
  have v2: "valid_datetime (time_at sample_env (nreads (sample_world\<lparr>nreads := 1\<rparr>)))"
    by (simp add: valid_datetime_def sample_env_def sample_time_def)
  have d: "\<not> same_second (time_at sample_env (nreads sample_world))
                          (time_at sample_env (nreads (sample_world\<lparr>nreads := 1\<rparr>)))"
    by (simp add: same_second_def sample_env_def sample_world_def sample_time_def)
  have n: "str ''download_'' @ stamp (time_at sample_env (nreads sample_world)) @ str ''.log'' =
           str ''download_20240309_070500.log''"
    by (simp add: stamp_def pad4_def pad2_def digit_def str_def ch_def sample_env_def
        sample_world_def sample_time_def)
  from make_log_file_timestamped [OF v1 v2, of "outdir_of sample_env"] v1 v2 d n
  show ?thesis by simp
qed

section \<open>Encodings and the logging adapter\<close>




lemma printable_append: "printable env (a @ b) \<longleftrightarrow> printable env a \<and> printable env b"
  by (simp add: printable_def)

lemma ascii_printable: "ascii s \<Longrightarrow> printable env s"
  by (simp add: ascii_def printable_def can_encode_def list_all_iff)









lemma FileLogger_write_unfold:
  "FileLogger_write env self tag msg w =
     (case print env (log_line (time_at env (nreads w)) tag msg) (w\<lparr>nreads := Suc (nreads w)\<rparr>) of
        Inl e \<Rightarrow> (Some e, w\<lparr>nreads := Suc (nreads w)\<rparr>)
      | Inr w2 \<Rightarrow>
         (case open_append (logfile self) w2 of
            (Some e, w3) \<Rightarrow> (Some e, w3)
          | (None, w3) \<Rightarrow>
             (case write_text (logfile self)
                     (log_line (time_at env (nreads w)) tag msg @ str ''\<newline>'') w3 of
                (r, w4) \<Rightarrow> (r, close_file (logfile self) w4))))"
  unfolding FileLogger_write_def datetime_now_def log_line_def Let_def by simp


lemma engine_calls_append: "engine_calls (xs @ ys) = engine_calls xs @ engine_calls ys"
  by (induction xs rule: engine_calls.induct) simp_all

lemma FileLogger_write_trace:
  "\<exists>es. trace (snd (FileLogger_write env self tag msg w)) = trace w @ es \<and> engine_calls es = []"
  unfolding FileLogger_write_unfold
  by (auto simp: print_def open_append_def write_text_def close_file_def Let_def)

lemma log_call_trace:
  "\<exists>es. trace (snd (log_call env lg c w)) = trace w @ es \<and> engine_calls es = []"
  by (cases c)
     (simp_all add: FileLogger_debug_def FileLogger_warning_def FileLogger_error_def
        FileLogger_write_trace)

lemma drive_trace:
  "\<exists>es. trace (snd (drive er env lg w)) = trace w @ es \<and> engine_calls es = []"
proof (induction er arbitrary: w)
  case (Finish r)
  show ?case by simp
next
  case (LogCall c k)
  obtain e w' where s: "log_call env lg c w = (e, w')"
    by (cases "log_call env lg c w")
  obtain es where 1: "trace w' = trace w @ es" "engine_calls es = []"
    using log_call_trace [of env lg c w] s by auto
  obtain es' where 2: "trace (snd (drive (k e) env lg w')) = trace w' @ es'"
      "engine_calls es' = []"
    using LogCall.IH [of "k e" w'] by blast
  have "trace (snd (drive (LogCall c k) env lg w)) = trace w @ (es @ es')"
    by (simp add: s 1 2)
  moreover have "engine_calls (es @ es') = []"
    by (simp add: engine_calls_append 1 2)
  ultimately show ?case by blast
qed

section \<open>The steps of a run\<close>

lemma join_snoc: "xs \<noteq> [] \<Longrightarrow> join s (xs @ [x]) = join s xs @ s @ x"
  by (induction s xs rule: join.induct) simp_all

lemma path_str_joinpath:
  "parts p \<noteq> [] \<Longrightarrow> path_str sep (joinpath p x) = path_str sep p @ [sep] @ x"
  by (simp add: path_str_def joinpath_def join_snoc)

lemma template_eq:
  "path_str (os_sep env)
     (joinpath (joinpath (outdir_of env) (str ''%(title)s'')) (str ''%(title)s.%(ext)s''))
   = template_of env"
proof -
  have a: "parts (outdir_of env) \<noteq> []"
    by (simp add: outdir_of_def joinpath_def)
  have b: "parts (joinpath (outdir_of env) (str ''%(title)s'')) \<noteq> []"
    by (simp add: joinpath_def)
  show ?thesis
    unfolding path_str_joinpath [OF b] path_str_joinpath [OF a] template_of_def by simp
qed

lemma ydl_opts_logger:
  "map_option (\<lambda>opts. setitem opts ''logger'' (PObj \<lparr>logfile = logpath_of env w\<rparr>))
     (ydl_opts env (outdir_of env) (ffmpeg_of env))
   = Some (configuration_of env w)"
  unfolding template_eq [symmetric] configuration_of_def
  by (simp add: ydl_opts_def SETTINGS_def download_configuration_def)

lemma prompt_printable: "printable env (str ''Paste a YouTube URL: '')"
  by (rule ascii_printable) (simp add: ascii_def str_def ch_def)

lemma read_url_frame:
  assumes "read_url env w = (r, w1)"
  shows "dirs w1 = dirs w" "files w1 = files w" "handles w1 = handles w" "trace w1 = trace w"
    "nreads w1 = nreads w"
  using assms
  by (auto simp: read_url_def input_def prompt_printable split: if_splits list.splits)

lemma parts_update: "parts (p\<lparr>parts := xs\<rparr>) = xs"
  by simp

lemma ffmpeg_not_ancestor: "ffmpeg_of env \<notin> set (ancestors (outdir_of env))"
proof
  assume "ffmpeg_of env \<in> set (ancestors (outdir_of env))"
  then obtain k where "ffmpeg_of env = (outdir_of env)\<lparr>parts := take k (parts (outdir_of env))\<rparr>"
    unfolding ancestors_def set_map by blast
  then have "parts (ffmpeg_of env) = take k (parts (outdir_of env))"
    by (simp only: parts_update)
  then have eq: "parts (script_dir env) @ [str ''ffmpeg.exe''] =
                 take k (parts (script_dir env) @ [str ''Downloads''])"
    by (simp add: ffmpeg_of_def outdir_of_def joinpath_def)
  have "length (parts (script_dir env) @ [str ''ffmpeg.exe'']) =
        min (Suc (length (parts (script_dir env)))) k"
    unfolding eq by simp
  then have "Suc (length (parts (script_dir env))) \<le> k"
    by simp
  with eq have "parts (script_dir env) @ [str ''ffmpeg.exe''] =
                parts (script_dir env) @ [str ''Downloads'']"
    by simp
  then show False by (simp add: str_def ch_def)
qed

lemma outdir_is_ancestor: "outdir_of env \<in> set (ancestors (outdir_of env))"
  unfolding ancestors_def set_map
  by (rule image_eqI [where x = "length (parts (outdir_of env))"]) simp_all

lemma mkdir_creatable:
  assumes "folder_creatable env w"
  shows "mkdir (outdir_of env) w =
           (None, w\<lparr>trace := trace w @ [Mkdir (outdir_of env)],
                     dirs := dirs w \<union> set (ancestors (outdir_of env))\<rparr>)"
proof -
  from assms have a: "\<forall>a \<in> set (ancestors (outdir_of env)). files w a = None"
    by (simp add: folder_creatable_def list_all_iff)
  then have "files w (outdir_of env) = None"
    using outdir_is_ancestor by blast
  moreover from a have "\<not> list_ex (\<lambda>a. files w a \<noteq> None) (ancestors (outdir_of env))"
    by (simp add: list_ex_iff)
  ultimately show ?thesis
    by (simp add: mkdir_def Let_def)
qed

lemma mkdir_blocked:
  assumes "\<not> folder_creatable env w"
  shows "\<exists>e. mkdir (outdir_of env) w = (Some e, w\<lparr>trace := trace w @ [Mkdir (outdir_of env)]\<rparr>)"
proof -
  from assms have "list_ex (\<lambda>a. files w a \<noteq> None) (ancestors (outdir_of env))"
    by (auto simp: folder_creatable_def list_all_iff list_ex_iff)
  then show ?thesis
    by (simp add: mkdir_def Let_def)
qed

lemma print_printable:
  "printable env s \<Longrightarrow> print env s w = Inr (w\<lparr>stdout := stdout w @ s @ str ''\<newline>''\<rparr>)"
  by (simp add: print_def)

lemma print_unprintable: "\<not> printable env s \<Longrightarrow> print env s w = Inl UnicodeEncodeError"
  by (simp add: print_def)

lemma invalid_message_printable: "printable env invalid_message"
  by (rule ascii_printable) (simp add: invalid_message_def ascii_def str_def ch_def)

lemma main_invalid:
  assumes "read_url env w = (Inr url, w1)" "\<not> is_valid_youtube_url url"
  shows "main env w =
           (SysExit 1, w1\<lparr>stdout := stdout w1 @ invalid_message @ str ''\<newline>''\<rparr>)"
  using assms
  by (simp add: main_def print_and_def invalid_message_def [symmetric]
      print_printable [OF invalid_message_printable])

lemma main_blocked:
  assumes "read_url env w = (Inr url, w1)" "is_valid_youtube_url url"
    and "\<not> folder_creatable env w1"
  shows "\<exists>e. main env w = (Uncaught e, w1\<lparr>trace := trace w1 @ [Mkdir (outdir_of env)]\<rparr>)"
proof -
  obtain e where "mkdir (outdir_of env) w1 =
      (Some e, w1\<lparr>trace := trace w1 @ [Mkdir (outdir_of env)]\<rparr>)"
    using mkdir_blocked [OF assms(3)] by blast
  then have "get_download_folder env w1 =
      (Inl e, w1\<lparr>trace := trace w1 @ [Mkdir (outdir_of env)]\<rparr>)"
    by (simp add: get_download_folder_def outdir_of_def Let_def)
  then show ?thesis
    using assms(1,2) by (simp add: main_def)
qed

lemma folder_made:
  assumes "folder_creatable env w1"
  shows "get_download_folder env w1 =
           (Inr (outdir_of env),
            w1\<lparr>trace := trace w1 @ [Mkdir (outdir_of env)],
                dirs := dirs w1 \<union> set (ancestors (outdir_of env))\<rparr>)"
  using mkdir_creatable [OF assms]
  by (simp add: get_download_folder_def outdir_of_def Let_def)

lemma log_file_made:
  "make_log_file env (outdir_of env) w = (logpath_of env w, w\<lparr>nreads := Suc (nreads w)\<rparr>)"
  by (simp add: make_log_file_def datetime_now_def logpath_of_def strftime_stamp
      del: strftime.simps)

lemma label_printable:
  "printable env (str ''Output folder: '' @ s) = printable env s"
  "printable env (str ''Log file: '' @ s) = printable env s"
proof -
  have "ascii (str ''Output folder: '')" "ascii (str ''Log file: '')"
    by (simp_all add: ascii_def str_def ch_def)
  then show "printable env (str ''Output folder: '' @ s) = printable env s"
    "printable env (str ''Log file: '' @ s) = printable env s"
    unfolding printable_append by (simp_all add: ascii_printable)
qed

lemma path_exists_prepared:
  "path_exists (ffmpeg_of env)
     (w1\<lparr>trace := trace w1 @ [Mkdir (outdir_of env)],
         dirs := dirs w1 \<union> set (ancestors (outdir_of env)),
         nreads := Suc (nreads w1),
         stdout := stdout w1 @ (str ''Output folder: '' @ path_str (os_sep env) (outdir_of env)) @
                   str ''\<newline>'',
         stdout := (stdout w1 @ (str ''Output folder: '' @ path_str (os_sep env) (outdir_of env)) @
                   str ''\<newline>'') @
                   (str ''Log file: '' @ path_str (os_sep env) (logpath_of env w1)) @
                   str ''\<newline>''\<rparr>)
   = (binary_present env w1, prepared env w1)"
  by (simp add: path_exists_def prepared_def binary_present_def ffmpeg_not_ancestor)

lemma final_message_if:
  "(if r = 0 then print_and env (check_mark @ str '' Download complete.'') w Returned
    else print_and env (warning_sign @ str '' Download finished with exit code '' @
                           int_str r @ str ''. See log for details.'') w Returned)
   = print_and env (final_message r) w Returned"
  by (simp add: final_message_def)

lemma main_unprintable:
  assumes "read_url env w = (Inr url, w1)" "is_valid_youtube_url url"
    and "folder_creatable env w1" and "\<not> paths_printable env w1"
  shows "\<exists>w'. main env w = (Uncaught UnicodeEncodeError, w') \<and>
              trace w' = trace w1 @ [Mkdir (outdir_of env)] \<and> files w' = files w1"
proof (cases "printable env (path_str (os_sep env) (outdir_of env))")
  case False
  then show ?thesis
    unfolding main_def assms(1) prod.case sum.case folder_made [OF assms(3)] log_file_made
    using assms(2) by (simp add: print_def label_printable log_file_made)
next
  case True
  with assms(4) have "\<not> printable env (path_str (os_sep env) (logpath_of env w1))"
    by (simp add: paths_printable_def)
  with True show ?thesis
    unfolding main_def assms(1) prod.case sum.case folder_made [OF assms(3)] log_file_made
    using assms(2) by (simp add: print_def label_printable log_file_made logpath_of_def)
qed

lemma prepared_alt:
  "prepared env w1 =
     w1\<lparr>dirs := dirs w1 \<union> set (ancestors (outdir_of env)),
        nreads := Suc (nreads w1),
        stdout := stdout w1 @ str ''Output folder: '' @ path_str (os_sep env) (outdir_of env) @
                  str ''\<newline>'' @ str ''Log file: '' @
                  path_str (os_sep env) (logpath_of env w1) @ str ''\<newline>'',
        trace := trace w1 @ [Mkdir (outdir_of env), Exists (ffmpeg_of env)]\<rparr>"
  by (simp add: prepared_def)

lemma main_valid:
  assumes "read_url env w = (Inr url, w1)" "is_valid_youtube_url url"
    and "folder_creatable env w1" and "paths_printable env w1"
  shows "main env w =
    (if \<not> binary_present env w1 then print_and env (missing_message env) (prepared env w1) (SysExit 1)
     else (case download env (configuration_of env w1) [url] (prepared env w1) of
             (res, w7) \<Rightarrow>
               (case res of Inl e \<Rightarrow> (Uncaught e, w7)
                | Inr r \<Rightarrow> print_and env (final_message r) w7 Returned)))"
proof -
  obtain opts where o: "ydl_opts env (outdir_of env) (ffmpeg_of env) = Some opts"
    and c: "setitem opts ''logger'' (PObj \<lparr>logfile = logpath_of env w1\<rparr>) =
            configuration_of env w1"
    using ydl_opts_logger [of env w1]
    by (cases "ydl_opts env (outdir_of env) (ffmpeg_of env)") auto
  from assms(4) have p1: "printable env (path_str (os_sep env) (outdir_of env))"
    and p2: "printable env (path_str (os_sep env) (logpath_of env w1))"
    by (simp_all add: paths_printable_def)
  have l: "logpath_of env
             (w1\<lparr>trace := trace w1 @ [Mkdir (outdir_of env)],
                 dirs := dirs w1 \<union> set (ancestors (outdir_of env))\<rparr>) = logpath_of env w1"
    by (simp add: logpath_of_def)
  have q1: "print env (str ''Output folder: '' @ path_str (os_sep env) (outdir_of env)) w' =
      Inr (w'\<lparr>stdout := stdout w' @ (str ''Output folder: '' @
              path_str (os_sep env) (outdir_of env)) @ str ''\<newline>''\<rparr>)" for w'
    by (rule print_printable) (simp add: label_printable p1)
  have q2: "print env (str ''Log file: '' @ path_str (os_sep env) (logpath_of env w1)) w' =
      Inr (w'\<lparr>stdout := stdout w' @ (str ''Log file: '' @
              path_str (os_sep env) (logpath_of env w1)) @ str ''\<newline>''\<rparr>)" for w'
    by (rule print_printable) (simp add: label_printable p2)
  show ?thesis
    unfolding main_def assms(1) prod.case sum.case folder_made [OF assms(3)] log_file_made l
    apply (simp only: assms(2) not_True_eq_False if_False Let_def prod.case sum.case q1)
    apply (simp only: world.simps q2 sum.case)
    apply (simp only: world.simps ffmpeg_of_def [symmetric])
    apply (simp only: o option.case c final_message_if missing_message_def [symmetric])
    apply (simp add: path_exists_def prepared_alt binary_present_def ffmpeg_not_ancestor)
    done
qed

lemma logger_of_configuration:
  "map_of (configuration_of env w) ''logger'' = Some (PObj \<lparr>logfile = logpath_of env w\<rparr>)"
  by (simp add: configuration_of_def download_configuration_def)

lemma download_run:
  "download env (configuration_of env w1) urls w =
     drive (engine env (configuration_of env w1) urls) env \<lparr>logfile = logpath_of env w1\<rparr>
       (w\<lparr>trace := trace w @ [Download (configuration_of env w1) urls]\<rparr>)"
  by (simp add: download_def logger_of_configuration Let_def)

lemma download_trace:
  "\<exists>es. trace (snd (download env (configuration_of env w1) urls w)) =
           trace w @ [Download (configuration_of env w1) urls] @ es \<and>
         engine_calls es = []"
  using drive_trace [of "engine env (configuration_of env w1) urls" env
      "\<lparr>logfile = logpath_of env w1\<rparr>"
      "w\<lparr>trace := trace w @ [Download (configuration_of env w1) urls]\<rparr>"]
  by (auto simp: download_run)

lemma print_and_frame:
  "trace (snd (print_and env s w out)) = trace w"
  "files (snd (print_and env s w out)) = files w"
  "dirs (snd (print_and env s w out)) = dirs w"
  by (simp_all add: print_and_def print_def)



lemma run_frame:
  assumes "read_url env w = (r, w1)"
  shows "folder_creatable env w1 = folder_creatable env w"
    "paths_printable env w1 = paths_printable env w"
    "binary_present env w1 = binary_present env w"
    "logpath_of env w1 = logpath_of env w"
    "configuration_of env w1 = configuration_of env w"
  using read_url_frame [OF assms]
  by (simp_all add: folder_creatable_def paths_printable_def binary_present_def logpath_of_def
      configuration_of_def)

lemma main_reaches_engine:
  assumes "read_url env w = (Inr url, w1)" "is_valid_youtube_url url"
    and "folder_creatable env w" "paths_printable env w" "binary_present env w"
  shows "main env w =
    (case download env (configuration_of env w) [url] (prepared env w1) of
       (res, w7) \<Rightarrow>
         (case res of Inl e \<Rightarrow> (Uncaught e, w7)
          | Inr r \<Rightarrow> print_and env (final_message r) w7 Returned))"
  using main_valid [OF assms(1,2)] assms(3-5)
  by (simp add: run_frame [OF assms(1)])

lemma main_missing:
  assumes "read_url env w = (Inr url, w1)" "is_valid_youtube_url url"
    and "folder_creatable env w" "paths_printable env w" "\<not> binary_present env w"
  shows "main env w = print_and env (missing_message env) (prepared env w1) (SysExit 1)"
  using main_valid [OF assms(1,2)] assms(3-5)
  by (simp add: run_frame [OF assms(1)])

lemma main_engine_calls:
  assumes "read_url env w = (Inr url, w1)" "is_valid_youtube_url url"
    and "folder_creatable env w" "paths_printable env w" "binary_present env w"
  shows "engine_calls (trace (snd (main env w))) =
           engine_calls (trace w) @ [(configuration_of env w, [url])]"
proof -
  obtain es where es: "trace (snd (download env (configuration_of env w) [url] (prepared env w1))) =
      trace (prepared env w1) @ [Download (configuration_of env w) [url]] @ es"
      "engine_calls es = []"
    using download_trace [of env w1 "[url]" "prepared env w1"]
    by (auto simp: run_frame [OF assms(1)])
  have t: "trace (snd (main env w)) =
           trace (snd (download env (configuration_of env w) [url] (prepared env w1)))"
    unfolding main_reaches_engine [OF assms]
    by (cases "download env (configuration_of env w) [url] (prepared env w1)")
       (auto simp: print_and_frame split: sum.splits)
  show ?thesis
    unfolding t es
    by (simp add: engine_calls_append es prepared_def read_url_frame [OF assms(1)])
qed

lemma main_no_engine_call:
  assumes "read_url env w = (Inr url, w1)"
    and "\<not> (is_valid_youtube_url url \<and> folder_creatable env w \<and> paths_printable env w \<and>
            binary_present env w)"
  shows "engine_calls (trace (snd (main env w))) = engine_calls (trace w)"
proof (cases "is_valid_youtube_url url")
  case False
  then show ?thesis
    by (simp add: main_invalid [OF assms(1)] read_url_frame [OF assms(1)])
next
  case v: True
  show ?thesis
  proof (cases "folder_creatable env w")
    case False
    then obtain e where "main env w = (Uncaught e, w1\<lparr>trace := trace w1 @ [Mkdir (outdir_of env)]\<rparr>)"
      using main_blocked [OF assms(1) v] by (auto simp: run_frame [OF assms(1)])
    then show ?thesis
      by (simp add: engine_calls_append read_url_frame [OF assms(1)])
  next
    case c: True
    show ?thesis
    proof (cases "paths_printable env w")
      case False
      then obtain w' where "main env w = (Uncaught UnicodeEncodeError, w')"
        "trace w' = trace w1 @ [Mkdir (outdir_of env)]"
        using main_unprintable [OF assms(1) v] c by (auto simp: run_frame [OF assms(1)])
      then show ?thesis
        by (simp add: engine_calls_append read_url_frame [OF assms(1)])
    next
      case p: True
      with assms(2) v c have nb: "\<not> binary_present env w" by blast
      show ?thesis
        unfolding main_missing [OF assms(1) v c p nb]
        by (simp add: print_and_frame prepared_def engine_calls_append
            read_url_frame [OF assms(1)])
    qed
  qed
qed


section \<open>The sample runs\<close>

lemmas sample_defs =
  sample_env_def legacy_env_def sample_world_def missing_world_def blocked_world_def
  sample_time_def

lemmas path_defs =
  outdir_of_def ffmpeg_of_def logpath_of_def joinpath_def path_str_def stamp_def
  pad2_def pad4_def digit_def

lemma sample_read_url:
  "read_url sample_env w = (Inr (str ''https://youtu.be/abc''), w)"
  "read_url legacy_env w = (Inr (str ''https://youtu.be/abc''), w)"
  by (simp_all add: read_url_def sample_defs)

lemma sample_url_valid: "is_valid_youtube_url (str ''https://youtu.be/abc'')"
  by (simp add: validator_defs)

lemma sample_url_invalid: "\<not> is_valid_youtube_url (str ''  https://youtu.be/abc '')"
  by (simp add: validator_defs)

lemma sample_ancestors:
  "ancestors (outdir_of sample_env) =
     [\<lparr>anchor = str ''/'', parts = []\<rparr>,
      \<lparr>anchor = str ''/'', parts = [str ''opt'']\<rparr>,
      \<lparr>anchor = str ''/'', parts = [str ''opt'', str ''ripper'']\<rparr>,
      \<lparr>anchor = str ''/'', parts = [str ''opt'', str ''ripper'', str ''Downloads'']\<rparr>]"
  "ancestors (outdir_of legacy_env) = ancestors (outdir_of sample_env)"
  by (simp_all add: ancestors_def outdir_of_def joinpath_def sample_defs upt_rec)

lemma sample_creatable:
  "folder_creatable sample_env sample_world" "folder_creatable sample_env missing_world"
  "folder_creatable legacy_env sample_world" "folder_creatable legacy_env missing_world"
  unfolding folder_creatable_def sample_ancestors
  by (simp_all add: sample_defs str_def ch_def)


lemma sample_outdir_str:
  "path_str (os_sep sample_env) (outdir_of sample_env) = str ''/opt/ripper/Downloads''"
  "path_str (os_sep legacy_env) (outdir_of legacy_env) = str ''/opt/ripper/Downloads''"
  by (simp_all add: path_defs sample_defs str_def ch_def)

lemma sample_logpath_str:
  "nreads w = 0 \<Longrightarrow> path_str (os_sep sample_env) (logpath_of sample_env w) =
     str ''/opt/ripper/Downloads/download_20240309_070500.log''"
  "nreads w = 0 \<Longrightarrow> path_str (os_sep legacy_env) (logpath_of legacy_env w) =
     str ''/opt/ripper/Downloads/download_20240309_070500.log''"
  by (simp_all add: path_defs sample_defs str_def ch_def)

lemma sample_nreads: "nreads sample_world = 0" "nreads missing_world = 0"
  by (simp_all add: sample_defs)

lemma ascii_literal_printable:
  "printable env (str ''/opt/ripper/Downloads'')"
  "printable env (str ''/opt/ripper/Downloads/download_20240309_070500.log'')"
  by (rule ascii_printable, simp add: ascii_def str_def ch_def)+

lemma sample_printable:
  "paths_printable sample_env sample_world" "paths_printable sample_env missing_world"
  "paths_printable legacy_env sample_world" "paths_printable legacy_env missing_world"
  unfolding paths_printable_def sample_outdir_str
    sample_logpath_str [OF sample_nreads(1)] sample_logpath_str [OF sample_nreads(2)]
  by (simp_all add: ascii_literal_printable)

lemma sample_binary:
  "binary_present sample_env sample_world" "binary_present legacy_env sample_world"
  "\<not> binary_present sample_env missing_world" "\<not> binary_present legacy_env missing_world"
  "\<not> binary_present sample_env blocked_world"
  by (simp_all add: binary_present_def ffmpeg_of_def joinpath_def sample_defs str_def ch_def)




section \<open>Properties of a run\<close>

text \<open>
  C3: when the URL of the run fails validation, the program prints the error and exits
  with status 1, and the world is otherwise as it was after the URL was obtained: no
  directory, no file, no open handle, no clock reading, no operation on the file system
  and no call of the engine, hence no configuration either.
\<close>

theorem invalid_url_aborts_without_effects:
  assumes "read_url env w = (Inr url, w1)" and "\<not> is_valid_youtube_url url"
  shows "fst (main env w) = SysExit 1 \<and> exit_code (fst (main env w)) \<noteq> 0 \<and>
         stdout (snd (main env w)) = stdout w1 @ invalid_message @ str ''\<newline>'' \<and>
         dirs (snd (main env w)) = dirs w \<and> files (snd (main env w)) = files w \<and>
         handles (snd (main env w)) = handles w \<and> nreads (snd (main env w)) = nreads w \<and>
         trace (snd (main env w)) = trace w"
  unfolding main_invalid [OF assms]
  by (simp add: read_url_frame [OF assms(1)])

theorem invalid_url_aborts_without_effects_witness:
  "\<not> is_valid_youtube_url (str ''  https://youtu.be/abc '') \<and>
   fst (main (sample_env\<lparr>argv := [str ''YoutubeRipper5000.py'', str ''  https://youtu.be/abc '']\<rparr>)
          sample_world) = SysExit 1 \<and>
   stdout (snd (main (sample_env\<lparr>argv := [str ''YoutubeRipper5000.py'', str ''  https://youtu.be/abc '']\<rparr>)
          sample_world)) = str ''Invalid or unsupported YouTube URL.\<newline>'' \<and>
   dirs (snd (main (sample_env\<lparr>argv := [str ''YoutubeRipper5000.py'', str ''  https://youtu.be/abc '']\<rparr>)
          sample_world)) = dirs sample_world \<and>
   files (snd (main (sample_env\<lparr>argv := [str ''YoutubeRipper5000.py'', str ''  https://youtu.be/abc '']\<rparr>)
          sample_world)) = files sample_world \<and>
   trace (snd (main (sample_env\<lparr>argv := [str ''YoutubeRipper5000.py'', str ''  https://youtu.be/abc '']\<rparr>)
          sample_world)) = trace sample_world"
proof -
  let ?env = "sample_env\<lparr>argv := [str ''YoutubeRipper5000.py'', str ''  https://youtu.be/abc '']\<rparr>"
  have r: "read_url ?env sample_world = (Inr (str ''  https://youtu.be/abc ''), sample_world)"
    by (simp add: read_url_def)
  have s: "stdout sample_world @ invalid_message @ str ''\<newline>'' =
           str ''Invalid or unsupported YouTube URL.\<newline>''"
    by (simp add: sample_world_def invalid_message_def str_def)
  from invalid_url_aborts_without_effects [OF r sample_url_invalid] sample_url_invalid
  show ?thesis unfolding s by blast
qed



















text \<open>
  C6: the engine is called at most once, and only with the Download Configuration of
  the listed values: format selector, container, both retry counts 10, the four writing
  and naming flags true, \<open>nooverwrites\<close> the negation of \<open>force_overwrites\<close> and
  \<open>continuedl\<close> the negation of \<open>no_continue\<close> (both false), the location of the
  binary next to the script, and the template with a folder and a file named after the
  title. It is called with it when the URL is valid, the binary present, the output
  directory can be made and the two paths can be printed.
\<close>

theorem download_configuration_assembled:
  "(read_url env w = (Inr url, w1) \<longrightarrow>
      engine_calls (trace (snd (main env w))) = engine_calls (trace w) \<or>
      engine_calls (trace (snd (main env w))) =
        engine_calls (trace w) @
        [(download_configuration (template_of env)
            (path_str (os_sep env) (ffmpeg_of env)) (logpath_of env w), [url])]) \<and>
   (read_url env w = (Inr url, w1) \<and> is_valid_youtube_url url \<and> binary_present env w \<and>
    folder_creatable env w \<and> paths_printable env w \<longrightarrow>
      engine_calls (trace (snd (main env w))) =
        engine_calls (trace w) @
        [(download_configuration (template_of env)
            (path_str (os_sep env) (ffmpeg_of env)) (logpath_of env w), [url])]) \<and>
   map_of (download_configuration (template_of env)
         (path_str (os_sep env) (ffmpeg_of env)) (logpath_of env w)) ''nooverwrites'' =
     map_option (\<lambda>v. PBool (\<not> truthy v)) (map_of SETTINGS ''force_overwrites'') \<and>
   map_of (download_configuration (template_of env)
         (path_str (os_sep env) (ffmpeg_of env)) (logpath_of env w)) ''continuedl'' =
     map_option (\<lambda>v. PBool (\<not> truthy v)) (map_of SETTINGS ''no_continue'') \<and>
   ffmpeg_of env = joinpath (script_dir env) (str ''ffmpeg.exe'') \<and>
   template_of env =
     path_str (os_sep env) (joinpath (script_dir env) (str ''Downloads'')) @
     [os_sep env] @ str ''%(title)s'' @ [os_sep env] @ str ''%(title)s.%(ext)s''"
proof (intro conjI impI)
  assume r: "read_url env w = (Inr url, w1)"
  show "engine_calls (trace (snd (main env w))) = engine_calls (trace w) \<or>
      engine_calls (trace (snd (main env w))) =
        engine_calls (trace w) @
        [(download_configuration (template_of env)
            (path_str (os_sep env) (ffmpeg_of env)) (logpath_of env w), [url])]"
    using main_engine_calls [OF r] main_no_engine_call [OF r]
    unfolding configuration_of_def by blast
next
  assume "read_url env w = (Inr url, w1) \<and> is_valid_youtube_url url \<and> binary_present env w \<and>
    folder_creatable env w \<and> paths_printable env w"
  then show "engine_calls (trace (snd (main env w))) =
        engine_calls (trace w) @
        [(download_configuration (template_of env)
            (path_str (os_sep env) (ffmpeg_of env)) (logpath_of env w), [url])]"
    using main_engine_calls [of env w url w1] unfolding configuration_of_def by blast
qed (simp_all add: download_configuration_def SETTINGS_def ffmpeg_of_def template_of_def
      outdir_of_def)

theorem download_configuration_assembled_witness:
  "is_valid_youtube_url (str ''https://youtu.be/abc'') \<and>
   binary_present sample_env sample_world \<and>
   folder_creatable sample_env sample_world \<and> paths_printable sample_env sample_world \<and>
   engine_calls (trace (snd (main sample_env sample_world))) =
     [(download_configuration (str ''/opt/ripper/Downloads/%(title)s/%(title)s.%(ext)s'')
         (str ''/opt/ripper/ffmpeg.exe'')
         \<lparr>anchor = str ''/'',
            parts = [str ''opt'', str ''ripper'', str ''Downloads'',
                     str ''download_20240309_070500.log'']\<rparr>,
       [str ''https://youtu.be/abc''])]"
proof -
  have t: "trace sample_world = []" by (simp add: sample_defs)
  have 1: "template_of sample_env = str ''/opt/ripper/Downloads/%(title)s/%(title)s.%(ext)s''"
    by (simp add: template_of_def path_defs sample_defs str_def ch_def)
  have 2: "path_str (os_sep sample_env) (ffmpeg_of sample_env) = str ''/opt/ripper/ffmpeg.exe''"
    by (simp add: path_defs sample_defs str_def ch_def)
  have 3: "logpath_of sample_env sample_world =
      \<lparr>anchor = str ''/'',
        parts = [str ''opt'', str ''ripper'', str ''Downloads'',
                 str ''download_20240309_070500.log'']\<rparr>"
    by (simp add: path_defs sample_defs str_def ch_def)
  from download_configuration_assembled
         [of sample_env sample_world "str ''https://youtu.be/abc''" sample_world]
    sample_read_url(1) sample_url_valid sample_binary(1) sample_creatable(1) sample_printable(1)
  show ?thesis unfolding t 1 2 3 by simp
qed

lemma ydl_opts_ignoreerrors:
  "\<exists>opts. ydl_opts env outdir ffmpeg = Some opts \<and>
          map_of opts ''ignoreerrors'' = Some (PBool True)"
  by (simp add: ydl_opts_def SETTINGS_def)

lemma configuration_ignoreerrors:
  "map_of (configuration_of env w) ''ignoreerrors'' = Some (PBool True)"
  by (simp add: configuration_of_def download_configuration_def)

text \<open>
  C10: \<open>ignoreerrors\<close> is true in the constants, in every assembled record, and in
  every record the engine is called with; the engine is called with such a record
  when the URL is valid, the binary present, the output directory can be made and the
  two paths can be printed.
\<close>

theorem ignoreerrors_always_set:
  "map_of SETTINGS ''ignoreerrors'' = Some (PBool True) \<and>
   (\<exists>opts. ydl_opts env outdir ffmpeg = Some opts \<and>
           map_of opts ''ignoreerrors'' = Some (PBool True)) \<and>
   (read_url env w = (Inr url, w1) \<longrightarrow>
      (\<exists>new. engine_calls (trace (snd (main env w))) = engine_calls (trace w) @ new \<and>
             (\<forall>(opts, urls) \<in> set new. map_of opts ''ignoreerrors'' = Some (PBool True)))) \<and>
   (read_url env w = (Inr url, w1) \<and> is_valid_youtube_url url \<and> binary_present env w \<and>
    folder_creatable env w \<and> paths_printable env w \<longrightarrow>
      (\<exists>opts. engine_calls (trace (snd (main env w))) = engine_calls (trace w) @ [(opts, [url])] \<and>
              map_of opts ''ignoreerrors'' = Some (PBool True)))"
proof (intro conjI impI)
  show "map_of SETTINGS ''ignoreerrors'' = Some (PBool True)"
    by (simp add: SETTINGS_def)
  show "\<exists>opts. ydl_opts env outdir ffmpeg = Some opts \<and>
          map_of opts ''ignoreerrors'' = Some (PBool True)"
    by (rule ydl_opts_ignoreerrors)
next
  assume r: "read_url env w = (Inr url, w1)"
  show "\<exists>new. engine_calls (trace (snd (main env w))) = engine_calls (trace w) @ new \<and>
             (\<forall>(opts, urls) \<in> set new. map_of opts ''ignoreerrors'' = Some (PBool True))"
  proof (cases "is_valid_youtube_url url \<and> folder_creatable env w \<and> paths_printable env w \<and>
            binary_present env w")
    case True
    then have "engine_calls (trace (snd (main env w))) =
        engine_calls (trace w) @ [(configuration_of env w, [url])]"
      using main_engine_calls [OF r] by blast
    then show ?thesis
      using configuration_ignoreerrors [of env w] by force
  next
    case False
    then have "engine_calls (trace (snd (main env w))) = engine_calls (trace w) @ []"
      using main_no_engine_call [OF r] by simp
    then show ?thesis by force
  qed
next
  assume a: "read_url env w = (Inr url, w1) \<and> is_valid_youtube_url url \<and> binary_present env w \<and>
    folder_creatable env w \<and> paths_printable env w"
  with main_engine_calls [of env w url w1] configuration_ignoreerrors [of env w]
  show "\<exists>opts. engine_calls (trace (snd (main env w))) = engine_calls (trace w) @ [(opts, [url])] \<and>
              map_of opts ''ignoreerrors'' = Some (PBool True)"
    by blast
qed

theorem ignoreerrors_always_set_witness:
  "is_valid_youtube_url (str ''https://youtu.be/abc'') \<and>
   binary_present sample_env sample_world \<and>
   folder_creatable sample_env sample_world \<and> paths_printable sample_env sample_world \<and>
   (\<exists>opts. engine_calls (trace (snd (main sample_env sample_world))) =
             engine_calls (trace sample_world) @ [(opts, [str ''https://youtu.be/abc''])] \<and>
           map_of opts ''ignoreerrors'' = Some (PBool True))"
  using ignoreerrors_always_set [of sample_env "outdir_of sample_env" "ffmpeg_of sample_env"
      sample_world "str ''https://youtu.be/abc''" sample_world]
    sample_read_url(1) sample_url_valid sample_binary(1) sample_creatable(1) sample_printable(1)
  by blast




section \<open>Properties of the logging adapter\<close>









end
